theory Spec2Isabelle
  imports Complex_Main "HOL-Library.Multiset"
begin

section \<open>Exceptions\<close>

text \<open>
  Every exception the modelled functions raise is a value of this type; a function that
  can raise returns \<open>error + 'a\<close> with \<open>Inl\<close> for the exception.
\<close>

datatype error =
    ValueError
  | AssertionError
  | AttributeError
  | SystemExit
  | MultiprocessingError
  | TimeoutError
  | TypeError
  | OverflowError
  | NotFoundError
  | IncompatibleZoningError
  | IncompatibleSegmentationError

section \<open>The process-pool wrapper (old\_tms/multiprocessing\_wrapper.py)\<close>

subsection \<open>\<open>_check_args_kwargs\<close>\<close>

text \<open>
  \<open>args\<close> and \<open>kwargs\<close> are lists or Python's \<open>None\<close>; \<open>length\<close> is an
  integer or \<open>None\<close>. The branches are those of the source's \<open>if\<close>/\<open>elif\<close> chain, in
  its order; \<open>range(length)\<close> is empty for a negative \<open>length\<close>.
\<close>

definition check_args_kwargs ::
  "'a list option \<Rightarrow> 'k list option \<Rightarrow> 'a \<Rightarrow> 'k \<Rightarrow> int option
    \<Rightarrow> error + ('a list option \<times> 'k list option)" where
  "check_args_kwargs args kwargs args_default kwargs_default len =
     (if args \<noteq> None \<and> kwargs = None then
        Inr (args, Some (replicate (length (the args)) kwargs_default))
      else if args = None \<and> kwargs \<noteq> None then
        Inr (Some (replicate (length (the kwargs)) args_default), kwargs)
      else if args = None \<and> kwargs = None \<and> len \<noteq> None then
        Inr (Some (replicate (nat (the len)) args_default),
             Some (replicate (nat (the len)) kwargs_default))
      else if args = None \<and> kwargs = None \<and> len = None then
        Inl ValueError
      else Inr (args, kwargs))"

subsection \<open>The pool, the terminate event and the error callback\<close>

text \<open>
  What \<open>kill_pool\<close> acts on: the pool (closed, terminated) and the terminate event.
\<close>

record pool_env =
  pool_closed :: bool
  pool_terminated :: bool
  event_set :: bool

definition new_pool :: pool_env where
  "new_pool = \<lparr>pool_closed = False, pool_terminated = False, event_set = False\<rparr>"

text \<open>
  \<open>kill_pool(process_error=None, process_callback=True)\<close>. The prints have no effect on
  the state. \<open>process_error.__traceback__\<close> is evaluated before the pool is touched, and
  raises \<open>AttributeError\<close> when \<open>process_error\<close> is \<open>None\<close>.
\<close>

definition kill_pool :: "'e option \<Rightarrow> bool \<Rightarrow> pool_env \<Rightarrow> error + pool_env" where
  "kill_pool process_error process_callback st =
     (case process_error of
        None \<Rightarrow> Inl AttributeError
      | Some e \<Rightarrow>
          Inr (st\<lparr>pool_closed := True, pool_terminated := True, event_set := True\<rparr>))"

subsection \<open>\<open>wait_for_pool_results\<close>\<close>

text \<open>
  An \<open>AsyncResult\<close> is the handle of a submitted job (its position of submission) and
  the outcome the job has once it is ready: \<open>Inl\<close> the exception the worker raised,
  \<open>Inr\<close> the value it returned.
\<close>

type_synonym ('e, 'r) async_result = "nat \<times> ('e + 'r)"

text \<open>
  What one pass of the polling loop reads from its surroundings: the state the callback
  thread has left the pool and the event in, the clock (\<open>time.time()\<close>) and the handles
  of the jobs that are ready.
\<close>

record poll =
  env :: pool_env
  clock :: real
  ready_jobs :: "nat list"

definition res_ready :: "poll \<Rightarrow> ('e, 'r) async_result \<Rightarrow> bool" where
  "res_ready p res = (fst res \<in> set (ready_jobs p))"

definition res_successful :: "('e, 'r) async_result \<Rightarrow> bool" where
  "res_successful res = (case snd res of Inl e \<Rightarrow> False | Inr v \<Rightarrow> True)"

text \<open>
  The \<open>for i, res in enumerate(results)\<close> loop of one pass together with the deletion of
  the collected handles: the values got, in the order of \<open>results\<close>, and the handles
  left. A ready result that is not successful raises.
\<close>

fun collect_ready ::
  "poll \<Rightarrow> ('e, 'r) async_result list \<Rightarrow> error + ('r list \<times> ('e, 'r) async_result list)" where
  "collect_ready p [] = Inr ([], [])"
| "collect_ready p (res # rs) =
     (if \<not> res_ready p res then
        (case collect_ready p rs of
           Inl e \<Rightarrow> Inl e
         | Inr (got, left) \<Rightarrow> Inr (got, res # left))
      else
        (case snd res of
           Inl e \<Rightarrow> Inl MultiprocessingError
         | Inr v \<Rightarrow>
             (case collect_ready p rs of
                Inl e \<Rightarrow> Inl e
              | Inr (got, left) \<Rightarrow> Inr (v # got, left))))"

text \<open>
  The \<open>while not got_all_results\<close> loop: one poll is consumed by each pass. \<open>None\<close> is a
  loop that is still waiting when the polls given are used up.
\<close>

fun wait_loop ::
  "real \<Rightarrow> real \<Rightarrow> nat \<Rightarrow> poll list \<Rightarrow> ('e, 'r) async_result list \<Rightarrow> 'r list
    \<Rightarrow> (error + 'r list) option" where
  "wait_loop start_time result_timeout n_start_results [] results return_results = None"
| "wait_loop start_time result_timeout n_start_results (p # ps) results return_results =
     (if event_set (env p) then Some (Inl MultiprocessingError)
      else if clock p - start_time > result_timeout then Some (Inl TimeoutError)
      else
        (case collect_ready p results of
           Inl e \<Rightarrow> Some (Inl e)
         | Inr (got, left) \<Rightarrow>
             (if \<not> (length left + length (return_results @ got) = n_start_results)
              then Some (Inl MultiprocessingError)
              else if length (return_results @ got) = n_start_results
              then Some (Inr (return_results @ got))
              else wait_loop start_time result_timeout n_start_results ps left
                     (return_results @ got))))"

definition wait_for_pool_results ::
  "real \<Rightarrow> poll list \<Rightarrow> ('e, 'r) async_result list \<Rightarrow> real \<Rightarrow> (error + 'r list) option" where
  "wait_for_pool_results start_time polls results result_timeout =
     wait_loop start_time result_timeout (length results) polls results []"

subsection \<open>The wrappers\<close>

text \<open>
  A call \<open>fn(*a, **k)\<close>: the positional arguments are a list, the keyword arguments an
  association list, and the function returns a value or raises.
\<close>

type_synonym ('v, 'e, 'r) pyfun = "'v list \<Rightarrow> (string \<times> 'v) list \<Rightarrow> 'e + 'r"

text \<open>
  The call \<open>_call_order_wrapper(i, fn, *a, **k)\<close> the pool makes for a job of the
  in-order wrapper. A keyword named \<open>index\<close> or \<open>func\<close> is a second value for one of
  the wrapper's own parameters, and the call raises \<open>TypeError\<close> before \<open>fn\<close> is
  called. The exception of the job is that \<open>TypeError\<close> (\<open>Inl\<close>) or the one \<open>fn\<close>
  raised (\<open>Inr\<close>).
\<close>

definition call_order_wrapper ::
  "nat \<Rightarrow> ('v, 'e, 'r) pyfun \<Rightarrow> 'v list \<Rightarrow> (string \<times> 'v) list
    \<Rightarrow> (error + 'e) + (nat \<times> 'r)" where
  "call_order_wrapper index func args kwargs =
     (if ''index'' \<in> set (map fst kwargs) \<or> ''func'' \<in> set (map fst kwargs)
      then Inl (Inl TypeError)
      else (case func args kwargs of Inl e \<Rightarrow> Inl (Inr e) | Inr v \<Rightarrow> Inr (index, v)))"

text \<open>
  The \<open>except BaseException\<close> handler of both wrappers: \<open>kill_pool(process_callback=False)\<close>
  and then \<open>sys.exit(1)\<close>.
\<close>

definition clean_up_and_exit :: "pool_env \<Rightarrow> error" where
  "clean_up_and_exit st =
     (case kill_pool (None :: unit option) False st of
        Inl e \<Rightarrow> e
      | Inr st' \<Rightarrow> SystemExit)"

definition submit_in_order ::
  "('v, 'e, 'r) pyfun \<Rightarrow> 'v list list \<Rightarrow> (string \<times> 'v) list list
    \<Rightarrow> (error + 'e, nat \<times> 'r) async_result list" where
  "submit_in_order fn args kwargs =
     map (\<lambda>(i, (a, k)). (i, call_order_wrapper i fn a k)) (enumerate 0 (zip args kwargs))"

definition submit_out_order ::
  "('v, 'e, 'r) pyfun \<Rightarrow> 'v list list \<Rightarrow> (string \<times> 'v) list list
    \<Rightarrow> ('e, 'r) async_result list" where
  "submit_out_order fn args kwargs =
     map (\<lambda>(i, (a, k)). (i, fn a k)) (enumerate 0 (zip args kwargs))"

text \<open>
  \<open>_, results = zip(*sorted(results, key=lambda x: x[0]))\<close>: the unpacking raises
  \<open>ValueError\<close> when there is no result at all.
\<close>

definition order_results :: "(nat \<times> 'r) list \<Rightarrow> error + 'r list" where
  "order_results results =
     (if results = [] then Inl ValueError else Inr (map snd (sort_key fst results)))"

definition process_pool_wrapper_kwargs_in_order ::
  "('v, 'e, 'r) pyfun \<Rightarrow> 'v list list option \<Rightarrow> (string \<times> 'v) list list option
    \<Rightarrow> real \<Rightarrow> real \<Rightarrow> poll list \<Rightarrow> (error + 'r list) option" where
  "process_pool_wrapper_kwargs_in_order fn args kwargs result_timeout start_time polls =
     (case check_args_kwargs args kwargs [] [] None of
        Inl e \<Rightarrow> Some (Inl e)
      | Inr (args', kwargs') \<Rightarrow>
          (let results = submit_in_order fn (the args') (the kwargs');
               result_timeout' = result_timeout * real (max (length results) 1)
           in case wait_for_pool_results start_time polls results result_timeout' of
                None \<Rightarrow> None
              | Some (Inl e) \<Rightarrow> Some (Inl (clean_up_and_exit new_pool))
              | Some (Inr results') \<Rightarrow> Some (order_results results')))"

definition process_pool_wrapper_kwargs_out_order ::
  "('v, 'e, 'r) pyfun \<Rightarrow> 'v list list option \<Rightarrow> (string \<times> 'v) list list option
    \<Rightarrow> real \<Rightarrow> real \<Rightarrow> poll list \<Rightarrow> (error + 'r list) option" where
  "process_pool_wrapper_kwargs_out_order fn args kwargs result_timeout start_time polls =
     (case check_args_kwargs args kwargs [] [] None of
        Inl e \<Rightarrow> Some (Inl e)
      | Inr (args', kwargs') \<Rightarrow>
          (let results = submit_out_order fn (the args') (the kwargs');
               result_timeout' = result_timeout * real (max (length results) 1)
           in case wait_for_pool_results start_time polls results result_timeout' of
                None \<Rightarrow> None
              | Some (Inl e) \<Rightarrow> Some (Inl (clean_up_and_exit new_pool))
              | Some (Inr results') \<Rightarrow> Some (Inr results')))"

definition process_pool_wrapper ::
  "('v, 'e, 'r) pyfun \<Rightarrow> 'v list list option \<Rightarrow> (string \<times> 'v) list list option
    \<Rightarrow> bool \<Rightarrow> real \<Rightarrow> real \<Rightarrow> poll list \<Rightarrow> (error + 'r list) option" where
  "process_pool_wrapper fn args kwargs in_order result_timeout start_time polls =
     (if \<not> (args \<noteq> None \<or> kwargs \<noteq> None) then Some (Inl AssertionError)
      else if in_order then
        process_pool_wrapper_kwargs_in_order fn args kwargs result_timeout start_time polls
      else
        process_pool_wrapper_kwargs_out_order fn args kwargs result_timeout start_time polls)"

subsection \<open>A batch of three jobs\<close>

text \<open>
  Three calls of a function that sums its positional arguments and raises on a negative
  one. In \<open>example_polls\<close> the third job is ready at the first pass and the other two
  at the second; in \<open>example_polls_killed\<close> the error callback has run before the
  second pass.
\<close>

definition example_fn :: "(int, string, int) pyfun" where
  "example_fn a k = (if list_ex (\<lambda>x. x < 0) a then Inl ''negative'' else Inr (sum_list a))"

definition example_args :: "int list list" where
  "example_args = [[1], [2], [3]]"

definition example_kwargs :: "(string \<times> int) list list" where
  "example_kwargs = [[], [], []]"

definition example_polls :: "poll list" where
  "example_polls =
     [\<lparr>env = new_pool, clock = 1, ready_jobs = [2]\<rparr>,
      \<lparr>env = new_pool, clock = 2, ready_jobs = [0, 1, 2]\<rparr>]"

definition killed_pool :: pool_env where
  "killed_pool = \<lparr>pool_closed = True, pool_terminated = True, event_set = True\<rparr>"

definition example_polls_killed :: "poll list" where
  "example_polls_killed =
     [\<lparr>env = new_pool, clock = 1, ready_jobs = [2]\<rparr>,
      \<lparr>env = killed_pool, clock = 2, ready_jobs = [0, 1, 2]\<rparr>]"

section \<open>Matrix masks (normits\_demand/matrices/utils.py)\<close>

subsection \<open>Data\<close>

text \<open>
  Zone labels are integers or strings. Of a \<open>DataFrame\<close> the masks read the labels of
  the index and of the columns and their dtypes only; of a numpy array, its shape.
\<close>

datatype label = IntL int | StrL string

datatype dtype = Int64 | Float64 | Object | Str

record dataframe =
  index :: "label list"
  index_dtype :: dtype
  columns :: "label list"
  columns_dtype :: dtype

datatype matrix = DataFrame dataframe | NdArray nat nat

text \<open>
  A value passed for \<open>zones\<close>, \<open>col_zones\<close> or \<open>index_zones\<close>: \<open>None\<close>, a list of
  labels, or (as \<open>get_internal_mask\<close> and \<open>get_external_mask\<close> pass it) a function of
  the \<open>operator\<close> module.
\<close>

datatype pyarg = PyNone | PyList "label list" | PyCallable "bool \<Rightarrow> bool \<Rightarrow> bool"

text \<open>A two-dimensional boolean array: its shape (rows, columns) and its rows.\<close>

type_synonym ndarray = "(nat \<times> nat) \<times> bool list list"

definition shape :: "dataframe \<Rightarrow> nat \<times> nat" where
  "shape df = (length (index df), length (columns df))"

subsection \<open>The numpy and pandas operations used\<close>

text \<open>\<open>Index.isin(values)\<close>: one boolean per label.\<close>

definition isin :: "label list \<Rightarrow> label list \<Rightarrow> bool list" where
  "isin labels values = map (\<lambda>l. l \<in> set values) labels"

text \<open>
  \<open>np.broadcast_to(v, (r, c))\<close> of a one-dimensional \<open>v\<close>: the length of \<open>v\<close> has to be
  \<open>c\<close> or 1, and \<open>v\<close> is repeated as each of the \<open>r\<close> rows; otherwise \<open>ValueError\<close>.
\<close>

definition broadcast_to :: "bool list \<Rightarrow> nat \<times> nat \<Rightarrow> error + ndarray" where
  "broadcast_to v shp =
     (case shp of (r, c) \<Rightarrow>
        if length v = c then Inr ((r, c), replicate r v)
        else if length v = 1 then Inr ((r, c), replicate r (replicate c (hd v)))
        else Inl ValueError)"

text \<open>\<open>a.T\<close>\<close>

definition transpose_T :: "ndarray \<Rightarrow> ndarray" where
  "transpose_T a =
     (case a of ((r, c), rows) \<Rightarrow>
        ((c, r), map (\<lambda>j. map (\<lambda>i. rows ! i ! j) [0..<r]) [0..<c]))"

text \<open>
  The shape two arrays broadcast to, axis by axis: equal lengths, or one of them 1.
\<close>

definition broadcast_dim :: "nat \<Rightarrow> nat \<Rightarrow> nat option" where
  "broadcast_dim m n =
     (if m = n then Some m else if m = 1 then Some n else if n = 1 then Some m else None)"

text \<open>
  \<open>join_fn(col_mask, index_mask)\<close> for an elementwise \<open>join_fn\<close> such as
  \<open>operator.and_\<close> and \<open>operator.or_\<close>: the operands are broadcast against each other,
  and shapes that do not broadcast raise \<open>ValueError\<close>.
\<close>

definition elementwise :: "(bool \<Rightarrow> bool \<Rightarrow> bool) \<Rightarrow> ndarray \<Rightarrow> ndarray \<Rightarrow> error + ndarray" where
  "elementwise join_fn a b =
     (case (a, b) of (((ra, ca), rows_a), ((rb, cb), rows_b)) \<Rightarrow>
        (case (broadcast_dim ra rb, broadcast_dim ca cb) of
           (Some r, Some c) \<Rightarrow>
             Inr ((r, c),
                  map (\<lambda>i. map (\<lambda>j. join_fn
                                  (rows_a ! (if ra = 1 then 0 else i) ! (if ca = 1 then 0 else j))
                                  (rows_b ! (if rb = 1 then 0 else i) ! (if cb = 1 then 0 else j)))
                            [0..<c])
                      [0..<r])
         | _ \<Rightarrow> Inl ValueError))"

subsection \<open>\<open>get_wide_mask\<close> and the functions built on it\<close>

text \<open>
  \<open>np_array\<close> is \<open>np.array(zones, dtype)\<close>, the cast of the zones given to the dtype of
  the labels, which returns the labels cast or raises. numpy is not part of the
  repository, so the cast is a parameter. The source catches a \<open>ValueError\<close> of the cast
  and raises a \<open>ValueError\<close> of its own; any other exception of the cast passes
  through.
\<close>

definition get_wide_mask ::
  "(pyarg \<Rightarrow> dtype \<Rightarrow> error + label list) \<Rightarrow> dataframe \<Rightarrow> pyarg \<Rightarrow> pyarg \<Rightarrow> pyarg
    \<Rightarrow> (bool \<Rightarrow> bool \<Rightarrow> bool) \<Rightarrow> error + ndarray" where
  "get_wide_mask np_array df zones col_zones index_zones join_fn =
     (case (case zones of
              PyNone \<Rightarrow>
                (if col_zones = PyNone \<or> index_zones = PyNone then Inl ValueError
                 else Inr (col_zones, index_zones))
            | _ \<Rightarrow> Inr (zones, zones)) of
        Inl e \<Rightarrow> Inl e
      | Inr (col_zones', index_zones') \<Rightarrow>
          (case np_array col_zones'
                  (if columns_dtype df = Object then Str else columns_dtype df) of
             Inl e \<Rightarrow> (if e = ValueError then Inl ValueError else Inl e)
           | Inr col_zones'' \<Rightarrow>
               (case np_array index_zones' (index_dtype df) of
                  Inl e \<Rightarrow> (if e = ValueError then Inl ValueError else Inl e)
                | Inr index_zones'' \<Rightarrow>
                    (case broadcast_to (isin (columns df) col_zones'') (shape df) of
                       Inl e \<Rightarrow> Inl e
                     | Inr col_mask \<Rightarrow>
                         (case broadcast_to (isin (index df) index_zones'') (shape df) of
                            Inl e \<Rightarrow> Inl e
                          | Inr b \<Rightarrow> elementwise join_fn col_mask (transpose_T b))))))"

text \<open>
  \<open>get_wide_mask_np\<close>: the array as a \<open>DataFrame\<close> whose index and columns are
  \<open>range(n_rows)\<close> and \<open>range(n_cols)\<close>.
\<close>

definition range_labels :: "nat \<Rightarrow> label list" where
  "range_labels n = map (\<lambda>i. IntL (int i)) [0..<n]"

definition get_wide_mask_np ::
  "(pyarg \<Rightarrow> dtype \<Rightarrow> error + label list) \<Rightarrow> nat \<Rightarrow> nat \<Rightarrow> pyarg \<Rightarrow> pyarg \<Rightarrow> pyarg
    \<Rightarrow> (bool \<Rightarrow> bool \<Rightarrow> bool) \<Rightarrow> error + ndarray" where
  "get_wide_mask_np np_array n_rows n_cols zones col_zones index_zones join_fn =
     get_wide_mask np_array
       \<lparr>index = range_labels n_rows, index_dtype = Int64,
        columns = range_labels n_cols, columns_dtype = Int64\<rparr>
       zones col_zones index_zones join_fn"

text \<open>
  \<open>fn(df, zones, operator.and_)\<close> and \<open>fn(df, zones, operator.or_)\<close>: the third
  positional parameter of both \<open>get_wide_mask\<close> and \<open>get_wide_mask_np\<close> is \<open>col_zones\<close>;
  \<open>index_zones\<close> and \<open>join_fn\<close> keep their defaults, \<open>None\<close> and \<open>operator.and_\<close>.
\<close>

definition get_internal_mask ::
  "(pyarg \<Rightarrow> dtype \<Rightarrow> error + label list) \<Rightarrow> matrix \<Rightarrow> pyarg \<Rightarrow> error + ndarray" where
  "get_internal_mask np_array df zones =
     (case df of
        NdArray n_rows n_cols \<Rightarrow>
          get_wide_mask_np np_array n_rows n_cols zones (PyCallable (\<and>)) PyNone (\<and>)
      | DataFrame d \<Rightarrow>
          get_wide_mask np_array d zones (PyCallable (\<and>)) PyNone (\<and>))"

definition get_external_mask ::
  "(pyarg \<Rightarrow> dtype \<Rightarrow> error + label list) \<Rightarrow> matrix \<Rightarrow> pyarg \<Rightarrow> error + ndarray" where
  "get_external_mask np_array df zones =
     (case df of
        NdArray n_rows n_cols \<Rightarrow>
          get_wide_mask_np np_array n_rows n_cols zones (PyCallable (\<or>)) PyNone (\<and>)
      | DataFrame d \<Rightarrow>
          get_wide_mask np_array d zones (PyCallable (\<or>)) PyNone (\<and>))"

subsection \<open>Example frames\<close>

text \<open>
  A cast that leaves a list of labels as it is and raises \<open>TypeError\<close> on anything
  else, and integer-labelled frames of shapes
  2 by 3, 1 by 2 and 3 by 3.
\<close>

definition example_cast :: "pyarg \<Rightarrow> dtype \<Rightarrow> error + label list" where
  "example_cast zs d = (case zs of PyList ls \<Rightarrow> Inr ls | _ \<Rightarrow> Inl TypeError)"

definition df_2x3 :: dataframe where
  "df_2x3 = \<lparr>index = [IntL 1, IntL 2], index_dtype = Int64,
             columns = [IntL 1, IntL 2, IntL 3], columns_dtype = Int64\<rparr>"

definition df_1x2 :: dataframe where
  "df_1x2 = \<lparr>index = [IntL 1], index_dtype = Int64,
             columns = [IntL 1, IntL 2], columns_dtype = Int64\<rparr>"

definition df_3x3 :: dataframe where
  "df_3x3 = \<lparr>index = [IntL 1, IntL 2, IntL 3], index_dtype = Int64,
             columns = [IntL 1, IntL 2, IntL 3], columns_dtype = Int64\<rparr>"

section \<open>The demand-vector engine (specification, sections 3 and 4)\<close>

text \<open>
  \<open>normits_demand/core/__init__.py\<close> only re-exports \<open>DVector\<close>, \<open>ZoningSystem\<close> and
  \<open>SegmentationLevel\<close>; the modules that define them (\<open>data_structures.py\<close>,
  \<open>zoning.py\<close>, \<open>segments.py\<close>) are not among the sources. The definitions of this
  section follow the specification's description of them. Values are exact rationals:
  the rounding of floating-point arithmetic is not modelled.
\<close>

subsection \<open>Data model\<close>

type_synonym zone = string

text \<open>
  Modelled from the spec: a segment value-tuple (section 3, SegmentationLevel), missing
  with \<open>segments.py\<close>. A segment such as \<open>{p:1, m:2}\<close> gives each defining column
  its value, in the order of the columns.
\<close>

type_synonym segment = "(string \<times> int) list"

text \<open>
  Modelled from the spec: ZoningSystem (section 3), missing with \<open>zoning.py\<close>: a name
  and the ordered sequence of zone identifiers.
\<close>

record zoning_system =
  zs_name :: string
  zone_ids :: "zone list"

text \<open>
  Modelled from the spec: SegmentationLevel (section 3), missing with \<open>segments.py\<close>: a
  name, the ordered defining columns and the enumerated valid value-tuples.
\<close>

record segmentation_level =
  seg_name :: string
  seg_columns :: "string list"
  segments :: "segment list"

text \<open>
  Modelled from the spec: DemandVector (section 3), missing with \<open>data_structures.py\<close>:
  one ZoningSystem, one SegmentationLevel and a value store over zones and segments. A
  (zone, segment) pair with no stored value holds 0, so the store is a total function.
\<close>

record 'v dvector =
  zoning :: zoning_system
  segmentation :: segmentation_level
  cell :: "zone \<Rightarrow> segment \<Rightarrow> 'v"

text \<open>
  Modelled from the spec: the invariants of section 3, missing with \<open>zoning.py\<close>,
  \<open>segments.py\<close> and \<open>data_structures.py\<close>: zone identifiers are unique; the
  defining-columns tuple identifies a segment, and every valid tuple ranges over the
  defining columns; no value exists outside the axes.
\<close>

definition valid_zoning :: "zoning_system \<Rightarrow> bool" where
  "valid_zoning z \<longleftrightarrow> distinct (zone_ids z)"

definition valid_segmentation :: "segmentation_level \<Rightarrow> bool" where
  "valid_segmentation s \<longleftrightarrow>
     distinct (seg_columns s) \<and> distinct (segments s) \<and>
     list_all (\<lambda>t. map fst t = seg_columns s) (segments s)"

definition valid_dvector :: "rat dvector \<Rightarrow> bool" where
  "valid_dvector v \<longleftrightarrow>
     valid_zoning (zoning v) \<and> valid_segmentation (segmentation v) \<and>
     (\<forall>z s. \<not> (z \<in> set (zone_ids (zoning v)) \<and> s \<in> set (segments (segmentation v)))
        \<longrightarrow> cell v z s = 0)"

subsection \<open>SegmentationLevel\<close>

text \<open>
  Modelled from the spec: \<open>project(segment_tuple, other)\<close> (section 4.2), missing with
  \<open>segments.py\<close>: the tuple mapped onto \<open>other\<close>'s defining columns.
\<close>

definition project :: "segment \<Rightarrow> string list \<Rightarrow> segment" where
  "project s cols = concat (map (\<lambda>c. filter (\<lambda>cv. fst cv = c) s) cols)"

text \<open>
  Modelled from the spec: \<open>can_aggregate_to(other)\<close> (section 4.2), missing with
  \<open>segments.py\<close>: "true iff other's defining columns are a strict or non-strict subset
  of this level's columns and every value of other's columns appears as a valid
  projection of this level's valid set".
\<close>

definition can_aggregate_to :: "segmentation_level \<Rightarrow> segmentation_level \<Rightarrow> bool" where
  "can_aggregate_to this other \<longleftrightarrow>
     set (seg_columns other) \<subseteq> set (seg_columns this) \<and>
     list_all (\<lambda>t. t \<in> set (map (\<lambda>s. project s (seg_columns other)) (segments this)))
       (segments other)"

subsection \<open>DemandVector\<close>

text \<open>
  Modelled from the spec: \<open>sum()\<close> (section 4.7), missing with \<open>data_structures.py\<close>:
  the total across all zones and segments.
\<close>

definition dvec_sum :: "rat dvector \<Rightarrow> rat" where
  "dvec_sum v =
     (\<Sum>z\<leftarrow>zone_ids (zoning v). \<Sum>s\<leftarrow>segments (segmentation v). cell v z s)"

text \<open>
  Modelled from the spec: \<open>aggregate(target_segmentation)\<close> (section 4.5), missing with
  \<open>data_structures.py\<close>: valid only if the vector's segmentation can aggregate to the
  target; for each zone, the value of a target segment is the sum of the values of all
  source segments that project onto it; the result has the same ZoningSystem and the
  target segmentation. Every source value is in the sum of the tuple it projects onto:
  none is left out.
\<close>

definition aggregate :: "rat dvector \<Rightarrow> segmentation_level \<Rightarrow> error + rat dvector" where
  "aggregate v target =
     (if \<not> can_aggregate_to (segmentation v) target then Inl IncompatibleSegmentationError
      else Inr \<lparr>zoning = zoning v, segmentation = target,
                cell = (\<lambda>z t.
                  \<Sum>s\<leftarrow>filter (\<lambda>s. project s (seg_columns target) = t)
                                (segments (segmentation v)). cell v z s)\<rparr>)"

text \<open>
  Modelled from the spec: the Zone-Translation Weighting (section 2) and
  \<open>translation(other)\<close> (section 4.1), missing with \<open>zoning.py\<close>: a correspondence
  (source zone, target zone, weight); the registry of the tables, by the names of the
  two zoning systems, is a parameter.
\<close>

type_synonym translation_table = "(zone \<times> zone \<times> rat) list"

datatype weighting = Weighted | NoWeight

text \<open>
  Modelled from the spec: \<open>translate_zoning(target_zoning, weighting)\<close> (section 4.6),
  missing with \<open>data_structures.py\<close>: \<open>NotFoundError\<close> without a table; in weighted
  mode, for each source zone, its value is split across every target zone with nonzero
  weight (value\_target += value\_source * weight); in no-weight mode the value is
  assigned in full to every overlapping target zone; the result has the target zoning
  and the unchanged segmentation.
\<close>

definition translate_zoning ::
  "(string \<Rightarrow> string \<Rightarrow> translation_table option) \<Rightarrow> rat dvector \<Rightarrow> zoning_system
    \<Rightarrow> weighting \<Rightarrow> error + rat dvector" where
  "translate_zoning translation v target_zoning w =
     (case translation (zs_name (zoning v)) (zs_name target_zoning) of
        None \<Rightarrow> Inl NotFoundError
      | Some table \<Rightarrow>
          Inr \<lparr>zoning = target_zoning, segmentation = segmentation v,
               cell = (\<lambda>t s.
                 if t \<in> set (zone_ids target_zoning) then
                   (\<Sum>z\<leftarrow>zone_ids (zoning v).
                      \<Sum>e\<leftarrow>filter (\<lambda>e. fst e = z \<and> fst (snd e) = t \<and> snd (snd e) \<noteq> 0) table.
                        cell v z s * (case w of Weighted \<Rightarrow> snd (snd e) | NoWeight \<Rightarrow> 1))
                 else 0)\<rparr>)"

text \<open>
  Modelled from the spec: the division policy of section 4.4, missing with
  \<open>data_structures.py\<close>. A zero divided by zero is zero; what a nonzero value divided
  by zero gives is left open by the specification and is kept apart as \<open>Flagged\<close>.
\<close>

datatype quotient = Finite rat | Flagged

definition cell_div :: "rat \<Rightarrow> rat \<Rightarrow> quotient" where
  "cell_div a b = (if b = 0 then (if a = 0 then Finite 0 else Flagged) else Finite (a / b))"

text \<open>
  Modelled from the spec: broadcasting (section 4.4), missing with
  \<open>data_structures.py\<close>: the value the coarser operand holds for a fine segment is the
  value of the coarse segment the fine one projects onto.
\<close>

definition broadcast :: "rat dvector \<Rightarrow> zone \<Rightarrow> segment \<Rightarrow> rat" where
  "broadcast v z s = cell v z (project s (seg_columns (segmentation v)))"

text \<open>
  Modelled from the spec: the operator \<open>/\<close> between two DemandVectors (section 4.4),
  missing with \<open>data_structures.py\<close>: identical zoning is required (ZoningSystems are
  equal iff their names match); the result has the finer of the two segmentations,
  determined via \<open>can_aggregate_to\<close>, with the coarser operand broadcast;
  \<open>IncompatibleSegmentationError\<close> if neither aggregates to the other.
\<close>

definition divide_dvector :: "rat dvector \<Rightarrow> rat dvector \<Rightarrow> error + quotient dvector" where
  "divide_dvector a b =
     (if zs_name (zoning a) \<noteq> zs_name (zoning b) then Inl IncompatibleZoningError
      else if can_aggregate_to (segmentation a) (segmentation b) then
        Inr \<lparr>zoning = zoning a, segmentation = segmentation a,
             cell = (\<lambda>z s. cell_div (cell a z s) (broadcast b z s))\<rparr>
      else if can_aggregate_to (segmentation b) (segmentation a) then
        Inr \<lparr>zoning = zoning a, segmentation = segmentation b,
             cell = (\<lambda>z s. cell_div (broadcast a z s) (cell b z s))\<rparr>
      else Inl IncompatibleSegmentationError)"

subsection \<open>Example vectors\<close>

text \<open>
  The vectors of the specification's scenarios (section 8): one zone \<open>E1\<close>; the
  segmentations \<open>{p, m}\<close> and \<open>{p}\<close>; a zoning of \<open>E1a\<close> and \<open>E1b\<close> with weights 0.3
  and 0.7.
\<close>

definition zoning_lad :: zoning_system where
  "zoning_lad = \<lparr>zs_name = ''lad'', zone_ids = [''E1'']\<rparr>"

definition zoning_split :: zoning_system where
  "zoning_split = \<lparr>zs_name = ''split'', zone_ids = [''E1a'', ''E1b'']\<rparr>"

definition seg_p :: segmentation_level where
  "seg_p = \<lparr>seg_name = ''p'', seg_columns = [''p''], segments = [[(''p'', 1)]]\<rparr>"

definition seg_p_m :: segmentation_level where
  "seg_p_m = \<lparr>seg_name = ''p_m'', seg_columns = [''p'', ''m''],
              segments = [[(''p'', 1), (''m'', 1)], [(''p'', 1), (''m'', 2)]]\<rparr>"

definition vec_10_20 :: "rat dvector" where
  "vec_10_20 = \<lparr>zoning = zoning_lad, segmentation = seg_p_m,
     cell = (\<lambda>z s. if z = ''E1'' \<and> s = [(''p'', 1), (''m'', 1)] then 10
                   else if z = ''E1'' \<and> s = [(''p'', 1), (''m'', 2)] then 20 else 0)\<rparr>"

definition vec_100 :: "rat dvector" where
  "vec_100 = \<lparr>zoning = zoning_lad, segmentation = seg_p,
     cell = (\<lambda>z s. if z = ''E1'' \<and> s = [(''p'', 1)] then 100 else 0)\<rparr>"

definition vec_0_7 :: "rat dvector" where
  "vec_0_7 = \<lparr>zoning = zoning_lad, segmentation = seg_p_m,
     cell = (\<lambda>z s. if z = ''E1'' \<and> s = [(''p'', 1), (''m'', 2)] then 7 else 0)\<rparr>"

definition vec_0 :: "rat dvector" where
  "vec_0 = \<lparr>zoning = zoning_lad, segmentation = seg_p, cell = (\<lambda>z s. 0)\<rparr>"

definition example_translation :: "string \<Rightarrow> string \<Rightarrow> translation_table option" where
  "example_translation a b =
     (if a = ''lad'' \<and> b = ''split''
      then Some [(''E1'', ''E1a'', 3 / 10), (''E1'', ''E1b'', 7 / 10)] else None)"

section \<open>Properties of the process-pool wrapper\<close>

subsection \<open>What the polling loop returns\<close>

lemma collect_ready_mset:
  "collect_ready p rs = Inr (got, left) \<Longrightarrow>
   mset (map Inr got) + mset (map snd left) = mset (map snd rs)"
proof (induction rs arbitrary: got left)
  case Nil
  then show ?case by simp
next
  case (Cons res rs)
  then show ?case
    by (auto split: if_splits sum.splits prod.splits)
qed

lemma collect_ready_failed:
  "\<exists>res \<in> set rs. res_ready p res \<and> \<not> res_successful res \<Longrightarrow>
   collect_ready p rs = Inl MultiprocessingError"
proof (induction rs)
  case Nil
  then show ?case by simp
next
  case (Cons r rs)
  show ?case
  proof (cases "res_ready p r \<and> \<not> res_successful r")
    case True
    then show ?thesis by (auto simp: res_successful_def split: sum.splits)
  next
    case False
    with Cons.prems have "\<exists>res \<in> set rs. res_ready p res \<and> \<not> res_successful res" by auto
    from Cons.IH[OF this] show ?thesis by (auto split: sum.splits)
  qed
qed

lemma wait_loop_mset:
  "wait_loop st to n ps rs ret = Some (Inr out) \<Longrightarrow>
   mset (map Inr out) = mset (map Inr ret) + mset (map snd rs)"
proof (induction ps arbitrary: rs ret)
  case Nil
  then show ?case by simp
next
  case (Cons p ps)
  show ?case
  proof (cases "collect_ready p rs")
    case (Inl e)
    with Cons.prems show ?thesis by (simp split: if_splits)
  next
    case (Inr gl)
    obtain got left where gl: "gl = (got, left)" by (cases gl)
    note m = collect_ready_mset[OF Inr[unfolded gl]]
    from Cons.prems Inr gl have
      *: "\<not> event_set (env p)" "\<not> clock p - st > to" "length left + length (ret @ got) = n"
      by (auto split: if_splits)
    show ?thesis
    proof (cases "length (ret @ got) = n")
      case True
      with * have "left = []" by simp
      with Cons.prems Inr gl * True m show ?thesis by (auto split: if_splits)
    next
      case False
      with Cons.prems Inr gl * have "wait_loop st to n ps left (ret @ got) = Some (Inr out)"
        by (auto split: if_splits)
      from Cons.IH[OF this] m show ?thesis by (simp add: ac_simps)
    qed
  qed
qed

lemma wait_for_pool_results_mset:
  "wait_for_pool_results st ps rs to = Some (Inr out) \<Longrightarrow>
   mset (map Inr out) = mset (map snd rs)"
  unfolding wait_for_pool_results_def by (drule wait_loop_mset) simp

lemma wait_never_partial:
  assumes "\<exists>res \<in> set results. \<not> res_successful res"
  shows "wait_for_pool_results st polls results to \<noteq> Some (Inr out)"
proof
  assume "wait_for_pool_results st polls results to = Some (Inr out)"
  then have "mset (map Inr out) = mset (map snd results)"
    by (rule wait_for_pool_results_mset)
  then have "set (map Inr out) = set (map snd results)"
    by (metis set_mset_mset)
  with assms show False
    by (auto simp: res_successful_def split: sum.splits)
qed

lemma wait_loop_bounded:
  "\<exists>p \<in> set ps. clock p - st > to \<Longrightarrow> wait_loop st to n ps rs ret \<noteq> None"
proof (induction ps arbitrary: rs ret)
  case Nil
  then show ?case by simp
next
  case (Cons p ps)
  show ?case
  proof (cases "event_set (env p) \<or> clock p - st > to")
    case True
    then show ?thesis by auto
  next
    case False
    with Cons.prems have "\<exists>p \<in> set ps. clock p - st > to" by auto
    from Cons.IH[OF this] False show ?thesis
      by (auto split: sum.splits prod.splits)
  qed
qed

subsection \<open>Sorting tagged results\<close>

lemma sort_key_unique:
  assumes m: "mset xs = mset ys" and s: "sorted (map f ys)" and d: "distinct (map f ys)"
  shows "sort_key f xs = ys"
proof (rule properties_for_sort_key)
  show "mset ys = mset xs" using m by simp
  show "sorted (map f ys)" by (rule s)
  fix k assume k: "k \<in> set ys"
  have inj: "inj_on f (set ys)" using d by (simp add: distinct_map)
  have dy: "distinct ys" using d by (simp add: distinct_map)
  have e: "\<And>x. x \<in> set ys \<Longrightarrow> (f k = f x) = (x = k)"
    using inj k by (auto dest: inj_onD)
  have "filter_mset (\<lambda>x. f k = f x) (mset ys) = {#k#}"
  proof -
    have "filter_mset (\<lambda>x. f k = f x) (mset ys) = filter_mset (\<lambda>x. x = k) (mset ys)"
      by (rule filter_mset_cong) (auto simp: e)
    also have "\<dots> = {#k#}"
      using dy k by (simp add: filter_eq_replicate_mset distinct_count_atmost_1)
    finally show ?thesis .
  qed
  then have a: "mset (filter (\<lambda>x. f k = f x) ys) = {#k#}"
    and b: "mset (filter (\<lambda>x. f k = f x) xs) = {#k#}"
    using m by simp_all
  from a have "filter (\<lambda>x. f k = f x) ys = [k]" by (simp only: mset_single_iff)
  moreover from b have "filter (\<lambda>x. f k = f x) xs = [k]" by (simp only: mset_single_iff)
  ultimately show "filter (\<lambda>x. f k = f x) ys = filter (\<lambda>x. f k = f x) xs"
    by simp
qed

lemma map_snd_submit_in_order:
  "length args = length kwargs \<Longrightarrow>
   map snd (submit_in_order fn args kwargs) =
     map (\<lambda>i. call_order_wrapper i fn (args ! i) (kwargs ! i)) [0..<length args]"
  by (rule nth_equalityI) (simp_all add: submit_in_order_def nth_enumerate_eq)

lemma map_snd_submit_out_order:
  "map snd (submit_out_order fn args kwargs) = map (\<lambda>(a, k). fn a k) (zip args kwargs)"
  by (rule nth_equalityI) (simp_all add: submit_out_order_def nth_enumerate_eq split_def)

lemma call_order_wrapper_Inr:
  "call_order_wrapper i f a k = Inr r \<Longrightarrow> \<exists>v. r = (i, v) \<and> f a k = Inr v"
  unfolding call_order_wrapper_def
  by (cases "f a k") (simp_all split: if_splits)

lemma call_order_wrapper_failed:
  "f a k = Inl e \<Longrightarrow> \<exists>x. call_order_wrapper i f a k = Inl x"
  unfolding call_order_wrapper_def by simp

lemma in_order_results:
  fixes fn :: "('v, 'e, 'r) pyfun"
  assumes len: "length args = length kwargs"
    and w: "mset (map Inr rs) = mset (map snd (submit_in_order fn args kwargs))"
  shows "map Inr (map snd (sort_key fst rs)) =
           map (\<lambda>i. fn (args ! i) (kwargs ! i)) [0..<length args]"
proof -
  let ?n = "length args"
  let ?c = "\<lambda>i. call_order_wrapper i fn (args ! i) (kwargs ! i)"
  have js: "mset (map Inr rs) = mset (map ?c [0..<?n])"
    using w map_snd_submit_in_order[OF len, of fn] by simp
  then have sets: "set (map Inr rs) = set (map ?c [0..<?n])"
    by (rule mset_eq_setD)
  have ok: "\<exists>v. ?c i = Inr (i, v) \<and> fn (args ! i) (kwargs ! i) = Inr v" if "i < ?n" for i
  proof -
    have "?c i \<in> set (map ?c [0..<?n])" using that by simp
    then have "?c i \<in> set (map Inr rs)" by (simp only: sets)
    then obtain r where r: "?c i = Inr r" by auto
    from call_order_wrapper_Inr[OF r] r show ?thesis by auto
  qed
  have ok1: "?c i = Inr (i, projr (fn (args ! i) (kwargs ! i)))" if "i < ?n" for i
    using ok[OF that] by auto
  have ok2: "Inr (projr (fn (args ! i) (kwargs ! i))) = fn (args ! i) (kwargs ! i)"
    if "i < ?n" for i
    using ok[OF that] by auto
  define ys where "ys = map (\<lambda>i. (i, projr (fn (args ! i) (kwargs ! i)))) [0..<?n]"
  have c: "map ?c [0..<?n] = map Inr ys"
    by (rule nth_equalityI) (simp_all add: ys_def ok1)
  have "image_mset (Inr :: nat \<times> 'r \<Rightarrow> (error + 'e) + nat \<times> 'r) (mset rs) =
      image_mset Inr (mset ys)"
    using js[unfolded c] by simp
  then have m: "mset rs = mset ys"
    by (rule multiset.inj_map_strong[rotated]) simp
  have f: "map fst ys = [0..<?n]" unfolding ys_def by (simp add: comp_def)
  have "sort_key fst rs = ys"
    by (rule sort_key_unique[OF m]) (simp_all add: f)
  then show ?thesis
    by (intro nth_equalityI) (simp_all add: ys_def ok2)
qed

subsection \<open>The wrappers\<close>

lemma wrapper_returns:
  fixes fn :: "('v, 'e, 'r) pyfun"
  assumes "process_pool_wrapper fn (Some args) (Some kwargs) in_order to st polls = Some (Inr out)"
  shows "if in_order
         then \<exists>rs. wait_for_pool_results st polls (submit_in_order fn args kwargs)
                 (to * real (max (length (submit_in_order fn args kwargs)) 1)) = Some (Inr rs)
               \<and> rs \<noteq> [] \<and> out = map snd (sort_key fst rs)
         else wait_for_pool_results st polls (submit_out_order fn args kwargs)
                 (to * real (max (length (submit_out_order fn args kwargs)) 1)) = Some (Inr out)"
  using assms
  by (auto simp: process_pool_wrapper_def process_pool_wrapper_kwargs_in_order_def
      process_pool_wrapper_kwargs_out_order_def check_args_kwargs_def order_results_def Let_def
      split: option.splits sum.splits if_splits)

lemma submit_in_order_failed:
  assumes "i < length args" "length args = length kwargs" "fn (args ! i) (kwargs ! i) = Inl e"
  shows "\<exists>res \<in> set (submit_in_order fn args kwargs). \<not> res_successful res"
proof -
  from call_order_wrapper_failed[of fn "args ! i" "kwargs ! i" e i, OF assms(3)] obtain y where
    "call_order_wrapper i fn (args ! i) (kwargs ! i) = Inl y" ..
  then have "\<exists>x. submit_in_order fn args kwargs ! i = (i, Inl x)"
    using assms by (simp add: submit_in_order_def nth_enumerate_eq)
  then obtain x where "submit_in_order fn args kwargs ! i = (i, Inl x)" ..
  moreover have "i < length (submit_in_order fn args kwargs)"
    using assms by (simp add: submit_in_order_def)
  ultimately have "(i, Inl x) \<in> set (submit_in_order fn args kwargs)"
    by (metis nth_mem)
  then show ?thesis by (force simp: res_successful_def)
qed

lemma submit_out_order_failed:
  assumes "i < length args" "length args = length kwargs" "fn (args ! i) (kwargs ! i) = Inl e"
  shows "\<exists>res \<in> set (submit_out_order fn args kwargs). \<not> res_successful res"
proof -
  have "submit_out_order fn args kwargs ! i = (i, Inl e)"
    using assms by (simp add: submit_out_order_def nth_enumerate_eq)
  moreover have "i < length (submit_out_order fn args kwargs)"
    using assms by (simp add: submit_out_order_def)
  ultimately have "(i, Inl e) \<in> set (submit_out_order fn args kwargs)"
    by (metis nth_mem)
  then show ?thesis by (force simp: res_successful_def)
qed

lemma wrapper_never_partial:
  fixes fn :: "('v, 'e, 'r) pyfun"
  assumes "i < length args" "length args = length kwargs" "fn (args ! i) (kwargs ! i) = Inl e"
  shows "process_pool_wrapper fn (Some args) (Some kwargs) in_order to st polls \<noteq> Some (Inr out)"
proof
  assume a: "process_pool_wrapper fn (Some args) (Some kwargs) in_order to st polls = Some (Inr out)"
  show False
  proof (cases in_order)
    case True
    with wrapper_returns[OF a] obtain rs where
      "wait_for_pool_results st polls (submit_in_order fn args kwargs)
         (to * real (max (length (submit_in_order fn args kwargs)) 1)) = Some (Inr rs)"
      by auto
    with wait_never_partial[OF submit_in_order_failed[of i args kwargs fn e, OF assms]]
    show False by blast
  next
    case False
    with wrapper_returns[OF a] have
      "wait_for_pool_results st polls (submit_out_order fn args kwargs)
         (to * real (max (length (submit_out_order fn args kwargs)) 1)) = Some (Inr out)"
      by simp
    with wait_never_partial[OF submit_out_order_failed[of i args kwargs fn e, OF assms]]
    show False by blast
  qed
qed

lemma wrapper_bounded:
  fixes fn :: "('v, 'e, 'r) pyfun"
  assumes "\<exists>p \<in> set polls. clock p - st > to * real (max (min (length args) (length kwargs)) 1)"
  shows "process_pool_wrapper fn (Some args) (Some kwargs) in_order to st polls \<noteq> None"
proof -
  have 1: "length (submit_in_order fn args kwargs) = min (length args) (length kwargs)"
    by (simp add: submit_in_order_def)
  have 2: "length (submit_out_order fn args kwargs) = min (length args) (length kwargs)"
    by (simp add: submit_out_order_def)
  have a: "wait_for_pool_results st polls (submit_in_order fn args kwargs)
       (to * real (max (min (length args) (length kwargs)) 1)) \<noteq> None"
    unfolding wait_for_pool_results_def by (rule wait_loop_bounded[OF assms])
  have b: "wait_for_pool_results st polls (submit_out_order fn args kwargs)
       (to * real (max (min (length args) (length kwargs)) 1)) \<noteq> None"
    unfolding wait_for_pool_results_def by (rule wait_loop_bounded[OF assms])
  show ?thesis
    using a b
    by (auto simp: process_pool_wrapper_def process_pool_wrapper_kwargs_in_order_def
      process_pool_wrapper_kwargs_out_order_def check_args_kwargs_def Let_def 1 2
      split: option.splits sum.splits)
qed

lemmas example_defs = example_fn_def example_args_def example_kwargs_def example_polls_def
  example_polls_killed_def killed_pool_def new_pool_def

lemmas wrapper_defs = process_pool_wrapper_def process_pool_wrapper_kwargs_in_order_def
  process_pool_wrapper_kwargs_out_order_def check_args_kwargs_def submit_in_order_def
  submit_out_order_def wait_for_pool_results_def call_order_wrapper_def res_ready_def
  order_results_def enumerate_eq_zip clean_up_and_exit_def kill_pool_def

subsection \<open>Order of the results\<close>

text \<open>
  C3. For equal-length lists \<open>args\<close> and \<open>kwargs\<close>, a call of \<open>process_pool_wrapper\<close>
  that returns a list \<open>out\<close> returns, with \<open>in_order=True\<close>, as many results as there
  are calls, the \<open>i\<close>-th being what \<open>fn(*args[i], **kwargs[i])\<close> returned; with
  \<open>in_order=False\<close> it returns the same results as a multiset, in the order in which
  they were collected. Which of the two wrappers runs depends on \<open>in_order\<close> only.
\<close>

theorem process_pool_wrapper_order:
  fixes fn :: "('v, 'e, 'r) pyfun"
  assumes len: "length args = length kwargs"
    and ret: "process_pool_wrapper fn (Some args) (Some kwargs) in_order result_timeout
                start_time polls = Some (Inr out)"
  shows "(in_order \<longrightarrow>
            length out = length args \<and>
            (\<forall>i < length args. fn (args ! i) (kwargs ! i) = Inr (out ! i)))
       \<and> (\<not> in_order \<longrightarrow>
            mset (map Inr out) = mset (map (\<lambda>(a, k). fn a k) (zip args kwargs)))
       \<and> process_pool_wrapper fn (Some args) (Some kwargs) in_order result_timeout
            start_time polls =
          (if in_order
           then process_pool_wrapper_kwargs_in_order fn (Some args) (Some kwargs)
                  result_timeout start_time polls
           else process_pool_wrapper_kwargs_out_order fn (Some args) (Some kwargs)
                  result_timeout start_time polls)"
proof (intro conjI impI)
  assume io: in_order
  from wrapper_returns[OF ret] io obtain rs where
    w: "wait_for_pool_results start_time polls (submit_in_order fn args kwargs)
          (result_timeout * real (max (length (submit_in_order fn args kwargs)) 1)) = Some (Inr rs)"
    and out: "out = map snd (sort_key fst rs)"
    by auto
  have "map Inr out = map (\<lambda>i. fn (args ! i) (kwargs ! i)) [0..<length args]"
    unfolding out
    by (rule in_order_results[OF len]) (rule wait_for_pool_results_mset[OF w])
  then have l: "length (map (Inr :: 'r \<Rightarrow> 'e + 'r) out) = length args"
    and n: "\<And>i. i < length args \<Longrightarrow>
          map (Inr :: 'r \<Rightarrow> 'e + 'r) out ! i = fn (args ! i) (kwargs ! i)"
    by simp_all
  from l show "length out = length args" by simp
  with n show "\<forall>i < length args. fn (args ! i) (kwargs ! i) = Inr (out ! i)"
    by (metis nth_map)
next
  assume io: "\<not> in_order"
  from wrapper_returns[OF ret] io have
    "wait_for_pool_results start_time polls (submit_out_order fn args kwargs)
       (result_timeout * real (max (length (submit_out_order fn args kwargs)) 1)) = Some (Inr out)"
    by simp
  from wait_for_pool_results_mset[OF this]
  show "mset (map Inr out) = mset (map (\<lambda>(a, k). fn a k) (zip args kwargs))"
    by (simp only: map_snd_submit_out_order)
next
  show "process_pool_wrapper fn (Some args) (Some kwargs) in_order result_timeout
            start_time polls =
          (if in_order
           then process_pool_wrapper_kwargs_in_order fn (Some args) (Some kwargs)
                  result_timeout start_time polls
           else process_pool_wrapper_kwargs_out_order fn (Some args) (Some kwargs)
                  result_timeout start_time polls)"
    by (simp add: process_pool_wrapper_def)
qed

text \<open>
  The batch of three jobs, whose third result is collected first: in order the wrapper
  returns \<open>[1, 2, 3]\<close>, out of order \<open>[3, 1, 2]\<close>.
\<close>

theorem process_pool_wrapper_order_witness:
  "length example_args = length example_kwargs
   \<and> process_pool_wrapper example_fn (Some example_args) (Some example_kwargs) True 10 0
       example_polls = Some (Inr [1, 2, 3])
   \<and> process_pool_wrapper example_fn (Some example_args) (Some example_kwargs) False 10 0
       example_polls = Some (Inr [3, 1, 2])
   \<and> example_fn (example_args ! 2) (example_kwargs ! 2) = Inr ([1, 2, 3] ! 2)
   \<and> mset (map Inr [3, 1, 2]) =
       mset (map (\<lambda>(a, k). example_fn a k) (zip example_args example_kwargs))"
proof -
  have l: "length example_args = length example_kwargs"
    by (simp add: example_defs)
  have t: "process_pool_wrapper example_fn (Some example_args) (Some example_kwargs) True 10 0
       example_polls = Some (Inr [1, 2, 3])"
    by (simp add: example_defs wrapper_defs)
  have f: "process_pool_wrapper example_fn (Some example_args) (Some example_kwargs) False 10 0
       example_polls = Some (Inr [3, 1, 2])"
    by (simp add: example_defs wrapper_defs)
  have "2 < length example_args" by (simp add: example_defs)
  with process_pool_wrapper_order[OF l t]
  have a: "example_fn (example_args ! 2) (example_kwargs ! 2) = Inr ([1, 2, 3] ! 2)"
    by blast
  from process_pool_wrapper_order[OF l f]
  have b: "mset (map Inr [3, 1, 2]) =
       mset (map (\<lambda>(a, k). example_fn a k) (zip example_args example_kwargs))"
    by blast
  from l t f a b show ?thesis by blast
qed

subsection \<open>A failing worker\<close>

text \<open>
  C4. If any worker raises, no result list is returned. The error callback
  \<open>kill_pool\<close> closes and terminates the pool and sets the terminate event. Whatever the
  polls, \<open>wait_for_pool_results\<close> does not return a list when one of the jobs has
  failed; a pass that finds the event set raises \<open>MultiprocessingError\<close>, and so does a
  pass (event not set, within the time allowed) that finds a ready result that is not
  successful. Neither wrapper returns a list when one of the calls of \<open>fn\<close> raises.
\<close>

theorem worker_failure_no_partial_results:
  fixes results rs :: "('e, 'r) async_result list" and fn :: "('v, 'e, 'r) pyfun"
  shows "kill_pool (Some err) process_callback pool =
           Inr (pool\<lparr>pool_closed := True, pool_terminated := True, event_set := True\<rparr>)
       \<and> ((\<exists>res \<in> set results. \<not> res_successful res) \<longrightarrow>
            (\<forall>out. wait_for_pool_results start_time polls results result_timeout \<noteq> Some (Inr out)))
       \<and> (event_set (env p) \<longrightarrow>
            wait_loop start_time result_timeout n (p # ps) rs return_results =
              Some (Inl MultiprocessingError))
       \<and> (\<not> event_set (env p) \<and> \<not> clock p - start_time > result_timeout \<and>
            (\<exists>res \<in> set rs. res_ready p res \<and> \<not> res_successful res) \<longrightarrow>
            wait_loop start_time result_timeout n (p # ps) rs return_results =
              Some (Inl MultiprocessingError))
       \<and> ((\<exists>i < length args. \<exists>e. fn (args ! i) (kwargs ! i) = Inl e) \<and>
            length args = length kwargs \<longrightarrow>
            (\<forall>out. process_pool_wrapper fn (Some args) (Some kwargs) in_order result_timeout
                     start_time polls \<noteq> Some (Inr out)))"
proof (intro conjI impI allI)
  show "kill_pool (Some err) process_callback pool =
           Inr (pool\<lparr>pool_closed := True, pool_terminated := True, event_set := True\<rparr>)"
    by (simp add: kill_pool_def)
next
  fix out assume "\<exists>res \<in> set results. \<not> res_successful res"
  then show "wait_for_pool_results start_time polls results result_timeout \<noteq> Some (Inr out)"
    by (rule wait_never_partial)
next
  assume "event_set (env p)"
  then show "wait_loop start_time result_timeout n (p # ps) rs return_results =
              Some (Inl MultiprocessingError)"
    by simp
next
  assume a: "\<not> event_set (env p) \<and> \<not> clock p - start_time > result_timeout \<and>
            (\<exists>res \<in> set rs. res_ready p res \<and> \<not> res_successful res)"
  then have "collect_ready p rs = Inl MultiprocessingError"
    by (intro collect_ready_failed) simp
  with a show "wait_loop start_time result_timeout n (p # ps) rs return_results =
              Some (Inl MultiprocessingError)"
    by simp
next
  fix out
  assume "(\<exists>i < length args. \<exists>e. fn (args ! i) (kwargs ! i) = Inl e) \<and> length args = length kwargs"
  then obtain i e where "i < length args" "length args = length kwargs"
    "fn (args ! i) (kwargs ! i) = Inl e" by auto
  then show "process_pool_wrapper fn (Some args) (Some kwargs) in_order result_timeout
                     start_time polls \<noteq> Some (Inr out)"
    by (rule wrapper_never_partial)
qed

text \<open>
  The batch of three jobs with a failing second call, polled after the callback has run
  and polled when only the failed result shows.
\<close>

theorem worker_failure_no_partial_results_witness:
  "kill_pool (Some ''negative'') True new_pool = Inr killed_pool
   \<and> wait_for_pool_results 0 example_polls_killed
       (submit_out_order example_fn [[1], [-2], [3]] example_kwargs) 30 \<noteq> Some (Inr [3])
   \<and> wait_loop 0 30 3 [\<lparr>env = killed_pool, clock = 2, ready_jobs = [0, 1, 2]\<rparr>]
       (submit_out_order example_fn [[1], [-2], [3]] example_kwargs) []
       = Some (Inl MultiprocessingError)
   \<and> wait_loop 0 30 3 [\<lparr>env = new_pool, clock = 2, ready_jobs = [0, 1, 2]\<rparr>]
       (submit_out_order example_fn [[1], [-2], [3]] example_kwargs) []
       = Some (Inl MultiprocessingError)
   \<and> process_pool_wrapper example_fn (Some [[1], [-2], [3]]) (Some example_kwargs) True 30 0
       example_polls \<noteq> Some (Inr [1, 3])"
proof -
  let ?rs = "submit_out_order example_fn [[1], [-2], [3]] example_kwargs"
  let ?pk = "\<lparr>env = killed_pool, clock = 2, ready_jobs = [0, 1, 2]\<rparr>"
  let ?pn = "\<lparr>env = new_pool, clock = 2, ready_jobs = [0, 1, 2]\<rparr>"
  note thm1 = worker_failure_no_partial_results[where err = "''negative''"
      and process_callback = True and pool = new_pool and results = ?rs and start_time = 0
      and polls = example_polls_killed and result_timeout = 30 and p = ?pk and ps = "[]"
      and n = 3 and rs = ?rs and return_results = "[]" and fn = example_fn
      and args = "[[1], [-2], [3]]" and kwargs = example_kwargs and in_order = True]
  note thm2 = worker_failure_no_partial_results[where err = "''negative''"
      and process_callback = True and pool = new_pool and results = ?rs and start_time = 0
      and polls = example_polls and result_timeout = 30 and p = ?pn and ps = "[]"
      and n = 3 and rs = ?rs and return_results = "[]" and fn = example_fn
      and args = "[[1], [-2], [3]]" and kwargs = example_kwargs and in_order = True]
  have h1: "\<exists>res \<in> set ?rs. \<not> res_successful res"
    by (simp add: example_defs wrapper_defs res_successful_def)
  have h2: "event_set (env ?pk)" by (simp add: example_defs)
  have h3: "\<not> event_set (env ?pn) \<and> \<not> clock ?pn - 0 > 30 \<and>
            (\<exists>res \<in> set ?rs. res_ready ?pn res \<and> \<not> res_successful res)"
    by (simp add: example_defs wrapper_defs res_successful_def)
  have h4: "(\<exists>i < length [[1], [-2], [3::int]]. \<exists>e.
      example_fn ([[1], [-2], [3]] ! i) (example_kwargs ! i) = Inl e) \<and>
      length [[1], [-2], [3::int]] = length example_kwargs"
    by (auto simp: example_defs intro: exI[of _ 1])
  note c1 = thm1[THEN conjunct1]
  note c2 = thm1[THEN conjunct2, THEN conjunct1, rule_format, OF h1]
  note c3 = thm1[THEN conjunct2, THEN conjunct2, THEN conjunct1, rule_format, OF h2]
  note c4 = thm2[THEN conjunct2, THEN conjunct2, THEN conjunct2, THEN conjunct1,
      rule_format, OF h3]
  note c5 = thm2[THEN conjunct2, THEN conjunct2, THEN conjunct2, THEN conjunct2,
      rule_format, OF h4]
  have k: "new_pool\<lparr>pool_closed := True, pool_terminated := True, event_set := True\<rparr> =
      killed_pool"
    by (simp add: example_defs)
  show ?thesis
    using c1[unfolded k] c2[of "[3]"] c3 c4 c5[of "[1, 3]"] by (intro conjI)
qed

subsection \<open>The timeout\<close>

text \<open>
  C5, as stated, fails: three jobs with a per-call timeout of 10, so a timeout of 30 for
  the batch; the only pass is made at time 31, after the error callback has set the
  terminate event. The event is tested before the clock, and the loop raises
  \<open>MultiprocessingError\<close>, not \<open>TimeoutError\<close>.
\<close>

theorem wait_timeout_counterexample:
  "clock \<lparr>env = killed_pool, clock = 31, ready_jobs = [0, 1, 2]\<rparr> - 0 > (30 :: real)
   \<and> wait_for_pool_results 0 [\<lparr>env = killed_pool, clock = 31, ready_jobs = [0, 1, 2]\<rparr>]
        (submit_out_order example_fn [[1], [-2], [3]] example_kwargs) 30
      = Some (Inl MultiprocessingError)
   \<and> wait_for_pool_results 0 [\<lparr>env = killed_pool, clock = 31, ready_jobs = [0, 1, 2]\<rparr>]
        (submit_out_order example_fn [[1], [-2], [3]] example_kwargs) 30
      \<noteq> Some (Inl TimeoutError)"
  by (simp add: example_defs wrapper_defs)

text \<open>
  C5, amended. A pass of the loop that finds more than \<open>result_timeout\<close> elapsed
  raises: \<open>TimeoutError\<close>, unless the terminate event is set, in which case
  \<open>MultiprocessingError\<close>. So the loop never waits beyond the first poll made after the
  timeout has elapsed, and the wrappers, which wait with the caller's timeout multiplied
  by the number of submitted jobs (at least 1), never wait beyond the first poll made
  after that product has elapsed.
\<close>

theorem wait_timeout_bounded:
  fixes rs :: "('e, 'r) async_result list" and fn :: "('v, 'e, 'r) pyfun"
  shows "(clock p - start_time > result_timeout \<longrightarrow>
            wait_loop start_time result_timeout n (p # ps) rs return_results =
              Some (Inl (if event_set (env p) then MultiprocessingError else TimeoutError)))
       \<and> ((\<exists>p \<in> set polls. clock p - start_time > result_timeout) \<longrightarrow>
            wait_for_pool_results start_time polls rs result_timeout \<noteq> None)
       \<and> ((\<exists>p \<in> set polls. clock p - start_time >
               per_call_timeout * real (max (min (length args) (length kwargs)) 1)) \<longrightarrow>
            process_pool_wrapper fn (Some args) (Some kwargs) in_order per_call_timeout
              start_time polls \<noteq> None)"
proof (intro conjI impI)
  assume "clock p - start_time > result_timeout"
  then show "wait_loop start_time result_timeout n (p # ps) rs return_results =
              Some (Inl (if event_set (env p) then MultiprocessingError else TimeoutError))"
    by simp
next
  assume "\<exists>p \<in> set polls. clock p - start_time > result_timeout"
  then show "wait_for_pool_results start_time polls rs result_timeout \<noteq> None"
    unfolding wait_for_pool_results_def by (rule wait_loop_bounded)
next
  assume "\<exists>p \<in> set polls. clock p - start_time >
               per_call_timeout * real (max (min (length args) (length kwargs)) 1)"
  then show "process_pool_wrapper fn (Some args) (Some kwargs) in_order per_call_timeout
              start_time polls \<noteq> None"
    by (rule wrapper_bounded)
qed

text \<open>The batch of three jobs, polled at time 31 with two results ready.\<close>

theorem wait_timeout_bounded_witness:
  "clock \<lparr>env = new_pool, clock = 31, ready_jobs = [0, 1]\<rparr> - 0 > (30 :: real)
   \<and> wait_loop 0 30 3 [\<lparr>env = new_pool, clock = 31, ready_jobs = [0, 1]\<rparr>]
       (submit_out_order example_fn example_args example_kwargs) []
       = Some (Inl TimeoutError)
   \<and> wait_for_pool_results 0 [\<lparr>env = new_pool, clock = 31, ready_jobs = [0, 1]\<rparr>]
       (submit_out_order example_fn example_args example_kwargs) 30 \<noteq> None
   \<and> process_pool_wrapper example_fn (Some example_args) (Some example_kwargs) True 10 0
       [\<lparr>env = new_pool, clock = 31, ready_jobs = [0, 1]\<rparr>] \<noteq> None"
proof -
  let ?p = "\<lparr>env = new_pool, clock = 31, ready_jobs = [0, 1]\<rparr>"
  let ?rs = "submit_out_order example_fn example_args example_kwargs"
  note t = wait_timeout_bounded[where p = ?p and start_time = 0 and result_timeout = 30
      and n = 3 and ps = "[]" and rs = ?rs and return_results = "[]" and polls = "[?p]"
      and per_call_timeout = 10 and args = example_args and kwargs = example_kwargs
      and fn = example_fn and in_order = True]
  have h1: "clock ?p - 0 > (30 :: real)" by simp
  have h2: "\<exists>q \<in> set [?p]. clock q - 0 > (30 :: real)" by simp
  have h3: "\<exists>q \<in> set [?p]. clock q - 0 >
      10 * real (max (min (length example_args) (length example_kwargs)) 1)"
    by (simp add: example_defs)
  have e: "\<not> event_set (env ?p)" by (simp add: example_defs)
  note c1 = t[THEN conjunct1, rule_format, OF h1]
  note c2 = t[THEN conjunct2, THEN conjunct1, rule_format, OF h2]
  note c3 = t[THEN conjunct2, THEN conjunct2, rule_format, OF h3]
  from c1 e have "wait_loop 0 30 3 [?p] ?rs [] = Some (Inl TimeoutError)"
    by (simp only: if_False)
  then show ?thesis using h1 c2 c3 by (intro conjI)
qed

subsection \<open>\<open>_check_args_kwargs\<close>\<close>

text \<open>
  C10. \<open>_check_args_kwargs\<close> raises \<open>ValueError\<close> exactly when \<open>args\<close>, \<open>kwargs\<close>
  and \<open>length\<close> are all \<open>None\<close>, and raises nothing else. A \<open>None\<close> \<open>kwargs\<close> becomes
  \<open>len(args)\<close> copies of \<open>kwargs_default\<close>, a \<open>None\<close> \<open>args\<close> \<open>len(kwargs)\<close> copies of
  \<open>args_default\<close>; when both are \<open>None\<close> they become \<open>length\<close> copies of the defaults;
  when neither is \<open>None\<close> they are returned unchanged. Whenever it returns, both
  components are lists, of equal length provided the inputs, when both are given, are
  of equal length.
\<close>

theorem check_args_kwargs_cases:
  "(check_args_kwargs args kwargs args_default kwargs_default len = Inl ValueError
      \<longleftrightarrow> args = None \<and> kwargs = None \<and> len = None)
   \<and> (\<forall>e. check_args_kwargs args kwargs args_default kwargs_default len = Inl e
          \<longrightarrow> e = ValueError)
   \<and> (\<forall>a. args = Some a \<and> kwargs = None \<longrightarrow>
          check_args_kwargs args kwargs args_default kwargs_default len =
            Inr (Some a, Some (replicate (length a) kwargs_default)))
   \<and> (\<forall>k. args = None \<and> kwargs = Some k \<longrightarrow>
          check_args_kwargs args kwargs args_default kwargs_default len =
            Inr (Some (replicate (length k) args_default), Some k))
   \<and> (\<forall>l. args = None \<and> kwargs = None \<and> len = Some l \<longrightarrow>
          check_args_kwargs args kwargs args_default kwargs_default len =
            Inr (Some (replicate (nat l) args_default), Some (replicate (nat l) kwargs_default)))
   \<and> (\<forall>a k. args = Some a \<and> kwargs = Some k \<longrightarrow>
          check_args_kwargs args kwargs args_default kwargs_default len = Inr (Some a, Some k))
   \<and> (\<forall>args' kwargs'.
          check_args_kwargs args kwargs args_default kwargs_default len = Inr (args', kwargs') \<and>
          (\<forall>a k. args = Some a \<and> kwargs = Some k \<longrightarrow> length a = length k) \<longrightarrow>
          (\<exists>a k. args' = Some a \<and> kwargs' = Some k \<and> length a = length k))"
  by (auto simp: check_args_kwargs_def)

text \<open>One call for each branch.\<close>

theorem check_args_kwargs_cases_witness:
  "check_args_kwargs (None :: int list list option) (None :: (string \<times> int) list list option)
     [] [] None = Inl ValueError
   \<and> check_args_kwargs (Some example_args) None [] ([] :: (string \<times> int) list) None =
       Inr (Some example_args, Some (replicate (length example_args) []))
   \<and> check_args_kwargs None (Some example_kwargs) ([] :: int list) [] None =
       Inr (Some (replicate (length example_kwargs) []), Some example_kwargs)
   \<and> check_args_kwargs None None ([] :: int list) ([] :: (string \<times> int) list) (Some 2) =
       Inr (Some (replicate (nat 2) []), Some (replicate (nat 2) []))
   \<and> check_args_kwargs (Some example_args) (Some example_kwargs) [] [] None =
       Inr (Some example_args, Some example_kwargs)"
proof -
  note c1 = check_args_kwargs_cases[of "None :: int list list option"
      "None :: (string \<times> int) list list option" "[]" "[]" None, THEN conjunct1, THEN iffD2]
  note c3 = check_args_kwargs_cases[of "Some example_args" None "[]"
      "[] :: (string \<times> int) list" None, THEN conjunct2, THEN conjunct2, THEN conjunct1,
      rule_format, of example_args]
  note c4 = check_args_kwargs_cases[of None "Some example_kwargs" "[] :: int list" "[]" None,
      THEN conjunct2, THEN conjunct2, THEN conjunct2, THEN conjunct1, rule_format,
      of example_kwargs]
  note c5 = check_args_kwargs_cases[of None None "[] :: int list"
      "[] :: (string \<times> int) list" "Some 2", THEN conjunct2, THEN conjunct2, THEN conjunct2,
      THEN conjunct2, THEN conjunct1, rule_format, of 2]
  note c6 = check_args_kwargs_cases[of "Some example_args" "Some example_kwargs" "[]" "[]"
      None, THEN conjunct2, THEN conjunct2, THEN conjunct2, THEN conjunct2, THEN conjunct2,
      THEN conjunct1, rule_format, of example_args example_kwargs]
  show ?thesis
    by (intro conjI c1 c3 c4 c5 c6) simp_all
qed

section \<open>Properties of the matrix masks\<close>

subsection \<open>Square frames\<close>

text \<open>
  For a frame with as many rows as columns, \<open>get_wide_mask\<close> with the default join
  returns the mask of the frame's shape whose entry at row \<open>i\<close>, column \<open>j\<close> says that
  column label \<open>j\<close> is among the column zones and index label \<open>i\<close> among the index
  zones.
\<close>

lemma broadcast_to_square:
  "length v = n \<Longrightarrow> broadcast_to v (n, n) = Inr ((n, n), replicate n v)"
  by (simp add: broadcast_to_def)

lemma transpose_T_replicate:
  "length v = n \<Longrightarrow> transpose_T ((n, n), replicate n v) = ((n, n), map (\<lambda>j. replicate n (v ! j)) [0..<n])"
  by (auto simp: transpose_T_def intro!: nth_equalityI)

lemma elementwise_square:
  "elementwise f ((n, n), replicate n v) ((n, n), map (\<lambda>j. replicate n (w ! j)) [0..<n]) =
     Inr ((n, n), map (\<lambda>i. map (\<lambda>j. f (v ! j) (w ! i)) [0..<n]) [0..<n])"
  by (auto simp: elementwise_def broadcast_dim_def)

lemma get_wide_mask_square:
  assumes sq: "length (index df) = length (columns df)"
    and cc: "np_array cz (if columns_dtype df = Object then Str else columns_dtype df) = Inr czs"
    and ci: "np_array iz (index_dtype df) = Inr izs"
    and z: "case zones of PyNone \<Rightarrow> col_zones = cz \<and> index_zones = iz \<and> cz \<noteq> PyNone \<and> iz \<noteq> PyNone
            | _ \<Rightarrow> cz = zones \<and> iz = zones"
  shows "get_wide_mask np_array df zones col_zones index_zones (\<and>) =
           Inr (shape df,
                map (\<lambda>i. map (\<lambda>j. columns df ! j \<in> set czs \<and> index df ! i \<in> set izs)
                          [0..<length (columns df)])
                    [0..<length (index df)])"
proof -
  let ?n = "length (columns df)"
  have s: "shape df = (?n, ?n)" by (simp add: shape_def sq)
  have lc: "length (isin (columns df) czs) = ?n" and li: "length (isin (index df) izs) = ?n"
    by (simp_all add: isin_def sq)
  have sel: "(case zones of
              PyNone \<Rightarrow>
                (if col_zones = PyNone \<or> index_zones = PyNone then Inl ValueError
                 else Inr (col_zones, index_zones))
            | _ \<Rightarrow> Inr (zones, zones)) = Inr (cz, iz)"
    using z by (cases zones) auto
  have "get_wide_mask np_array df zones col_zones index_zones (\<and>) =
      elementwise (\<and>) ((?n, ?n), replicate ?n (isin (columns df) czs))
        (transpose_T ((?n, ?n), replicate ?n (isin (index df) izs)))"
    unfolding get_wide_mask_def sel
    by (simp add: cc ci s broadcast_to_square[OF lc] broadcast_to_square[OF li])
  also have "\<dots> = Inr ((?n, ?n), map (\<lambda>i. map (\<lambda>j. isin (columns df) czs ! j \<and> isin (index df) izs ! i) [0..<?n]) [0..<?n])"
    by (simp only: transpose_T_replicate[OF li] elementwise_square)
  also have "\<dots> = Inr (shape df,
                map (\<lambda>i. map (\<lambda>j. columns df ! j \<in> set czs \<and> index df ! i \<in> set izs)
                          [0..<?n])
                    [0..<length (index df)])"
    by (simp add: s sq isin_def)
  finally show ?thesis .
qed

subsection \<open>Internal and external masks\<close>

text \<open>
  C8. \<open>get_external_mask(df, zs)\<close> returns what \<open>get_internal_mask(df, zs)\<close> returns, for
  a \<open>DataFrame\<close> and for a numpy array: the function each passes third is taken as
  \<open>col_zones\<close>, which has no part in the result (\<open>zones\<close> overwrites it, and without
  \<open>zones\<close> the missing \<open>index_zones\<close> raises), and the masks are joined by the default
  \<open>operator.and_\<close>.
\<close>

theorem external_mask_is_internal_mask:
  "get_external_mask np_array df zones = get_internal_mask np_array df zones
   \<and> get_external_mask np_array (DataFrame d) zones =
       get_wide_mask np_array d zones col_zones PyNone (\<and>)
   \<and> get_external_mask np_array (NdArray n_rows n_cols) zones =
       get_wide_mask_np np_array n_rows n_cols zones col_zones PyNone (\<and>)"
  by (cases df; cases zones)
     (simp_all add: get_external_mask_def get_internal_mask_def get_wide_mask_np_def
        get_wide_mask_def)

text \<open>
  On the 3 by 3 frame with zone 3, both masks hold \<open>True\<close> at the one cell whose row
  and column are zone 3.
\<close>

lemmas mask_defs = get_external_mask_def get_internal_mask_def get_wide_mask_np_def
  get_wide_mask_def broadcast_to_def transpose_T_def elementwise_def broadcast_dim_def
  isin_def shape_def example_cast_def df_2x3_def df_1x2_def df_3x3_def

theorem external_mask_is_internal_mask_witness:
  "get_external_mask example_cast (DataFrame df_3x3) (PyList [IntL 3]) =
     Inr ((3, 3), [[False, False, False], [False, False, False], [False, False, True]])
   \<and> get_internal_mask example_cast (DataFrame df_3x3) (PyList [IntL 3]) =
     Inr ((3, 3), [[False, False, False], [False, False, False], [False, False, True]])"
proof -
  have e: "get_external_mask example_cast (DataFrame df_3x3) (PyList [IntL 3]) =
     Inr ((3, 3), [[False, False, False], [False, False, False], [False, False, True]])"
    by (simp add: mask_defs upt_rec)
  from external_mask_is_internal_mask[of example_cast "DataFrame df_3x3" "PyList [IntL 3]",
      THEN conjunct1] e
  show ?thesis by simp
qed

subsection \<open>Frames that are not square\<close>

text \<open>
  C9 fails on the code for a frame that is not square. With \<open>zones=[1]\<close>, which is
  set and castable, the 2 by 3 frame raises \<open>ValueError\<close>: the index mask, of length 2,
  does not broadcast to the shape (2, 3). The 1 by 2 frame returns a mask of shape
  (2, 2), which is not the frame's shape.
\<close>

theorem get_wide_mask_not_square:
  "get_wide_mask example_cast df_2x3 (PyList [IntL 1]) PyNone PyNone (\<and>) = Inl ValueError
   \<and> shape df_1x2 = (1, 2)
   \<and> get_wide_mask example_cast df_1x2 (PyList [IntL 1]) PyNone PyNone (\<and>) =
       Inr ((2, 2), [[True, False], [True, False]])"
  by (simp add: mask_defs upt_rec)

section \<open>Properties of the demand-vector engine\<close>

subsection \<open>Sums over lists\<close>

lemma sum_list_swap:
  fixes f :: "'a \<Rightarrow> 'b \<Rightarrow> rat"
  shows "(\<Sum>x\<leftarrow>xs. \<Sum>y\<leftarrow>ys. f x y) = (\<Sum>y\<leftarrow>ys. \<Sum>x\<leftarrow>xs. f x y)"
  by (induction xs) (simp_all add: sum_list_addf)

lemma sum_list_pick_none:
  fixes c :: rat
  shows "a \<notin> set ts \<Longrightarrow> (\<Sum>t\<leftarrow>ts. if a = t then c else 0) = 0"
  by (induction ts) auto

lemma sum_list_pick:
  fixes c :: rat
  shows "distinct ts \<Longrightarrow> a \<in> set ts \<Longrightarrow> (\<Sum>t\<leftarrow>ts. if a = t then c else 0) = c"
  by (induction ts) (auto simp: sum_list_pick_none)

lemma sum_list_group:
  fixes f :: "'a \<Rightarrow> rat"
  assumes "distinct ts" and "\<forall>x \<in> set xs. g x \<in> set ts"
  shows "(\<Sum>t\<leftarrow>ts. \<Sum>x\<leftarrow>filter (\<lambda>x. g x = t) xs. f x) = (\<Sum>x\<leftarrow>xs. f x)"
  using assms(2)
proof (induction xs)
  case Nil
  then show ?case by simp
next
  case (Cons x xs)
  have "(\<Sum>t\<leftarrow>ts. \<Sum>y\<leftarrow>filter (\<lambda>y. g y = t) (x # xs). f y) =
        (\<Sum>t\<leftarrow>ts. (if g x = t then f x else 0) + (\<Sum>y\<leftarrow>filter (\<lambda>y. g y = t) xs. f y))"
    by (intro arg_cong[where f = sum_list] map_cong) auto
  also have "\<dots> = (\<Sum>t\<leftarrow>ts. if g x = t then f x else 0) +
        (\<Sum>t\<leftarrow>ts. \<Sum>y\<leftarrow>filter (\<lambda>y. g y = t) xs. f y)"
    by (simp add: sum_list_addf)
  also have "\<dots> = f x + (\<Sum>y\<leftarrow>xs. f y)"
    using Cons assms(1) by (simp add: sum_list_pick)
  finally show ?case by simp
qed

lemma sum_list_drop_zero:
  fixes f :: "'a \<Rightarrow> rat"
  shows "(\<Sum>x\<leftarrow>filter (\<lambda>x. P x \<and> f x \<noteq> 0) xs. f x) = (\<Sum>x\<leftarrow>filter P xs. f x)"
  by (induction xs) auto

lemmas dvec_defs = aggregate_def can_aggregate_to_def project_def dvec_sum_def
  translate_zoning_def divide_dvector_def broadcast_def cell_div_def
  zoning_lad_def zoning_split_def seg_p_def seg_p_m_def
  vec_10_20_def vec_100_def vec_0_7_def vec_0_def example_translation_def

subsection \<open>Aggregation\<close>



subsection \<open>Zone translation\<close>

text \<open>
  C2. For a DemandVector \<open>v\<close> and a target zoning with a translation table whose target
  zones are zones of the target zoning (each listed once), weighted translation
  returns a vector of the target zoning and of the segmentation of \<open>v\<close>, in which the
  value of a target zone is the sum, over the source zones and their table entries with
  nonzero weight, of the source value times the weight; and when the weights of each
  source zone sum to 1, the total is that of \<open>v\<close>.
\<close>

theorem translate_weighted_conserves_total:
  assumes tab: "translation (zs_name (zoning v)) (zs_name target) = Some table"
    and tgt: "list_all (\<lambda>e. fst (snd e) \<in> set (zone_ids target)) table"
    and dist: "distinct (zone_ids target)"
    and one: "list_all (\<lambda>z. (\<Sum>e\<leftarrow>filter (\<lambda>e. fst e = z) table. snd (snd e)) = 1)
                (zone_ids (zoning v))"
  shows "\<exists>w. translate_zoning translation v target Weighted = Inr w
            \<and> zoning w = target \<and> segmentation w = segmentation v
            \<and> (\<forall>t s. t \<in> set (zone_ids target) \<longrightarrow>
                 cell w t s =
                   (\<Sum>z\<leftarrow>zone_ids (zoning v).
                      \<Sum>e\<leftarrow>filter (\<lambda>e. fst e = z \<and> fst (snd e) = t \<and> snd (snd e) \<noteq> 0) table.
                        cell v z s * snd (snd e)))
            \<and> dvec_sum w = dvec_sum v"
proof -
  let ?zs = "zone_ids (zoning v)" and ?ts = "zone_ids target"
  let ?ss = "segments (segmentation v)"
  let ?F = "\<lambda>z t. filter (\<lambda>e. fst e = z \<and> fst (snd e) = t \<and> snd (snd e) \<noteq> 0) table"
  let ?W = "\<lambda>z t. (\<Sum>e\<leftarrow>?F z t. snd (snd e))"
  let ?c = "\<lambda>t s. if t \<in> set ?ts then
                   (\<Sum>z\<leftarrow>?zs. \<Sum>e\<leftarrow>?F z t.
                        cell v z s * (case Weighted of Weighted \<Rightarrow> snd (snd e) | NoWeight \<Rightarrow> 1))
                 else 0"
  let ?w = "\<lparr>zoning = target, segmentation = segmentation v, cell = ?c\<rparr>"
  have a: "translate_zoning translation v target Weighted = Inr ?w"
    by (simp add: translate_zoning_def tab)
  have tgt': "\<forall>e \<in> set table. fst (snd e) \<in> set ?ts" using tgt by (simp add: list_all_iff)
  have one': "\<And>z. z \<in> set ?zs \<Longrightarrow> (\<Sum>e\<leftarrow>filter (\<lambda>e. fst e = z) table. snd (snd e)) = 1"
    using one by (simp add: list_all_iff)
  have weights: "(\<Sum>t\<leftarrow>?ts. ?W z t) = 1" if z: "z \<in> set ?zs" for z
  proof -
    let ?xs = "filter (\<lambda>e. fst e = z \<and> snd (snd e) \<noteq> 0) table"
    have f: "?F z t = filter (\<lambda>e. fst (snd e) = t) ?xs" for t
      by (induction table) auto
    have "(\<Sum>t\<leftarrow>?ts. ?W z t) =
        (\<Sum>t\<leftarrow>?ts. \<Sum>e\<leftarrow>filter (\<lambda>e. fst (snd e) = t) ?xs. snd (snd e))"
      by (simp only: f)
    also have "\<dots> = (\<Sum>e\<leftarrow>?xs. snd (snd e))"
      by (rule sum_list_group[OF dist]) (use tgt' in auto)
    also have "\<dots> = (\<Sum>e\<leftarrow>filter (\<lambda>e. fst e = z) table. snd (snd e))"
      by (rule sum_list_drop_zero)
    also have "\<dots> = 1" by (rule one'[OF z])
    finally show ?thesis .
  qed
  have cellw: "?c t s = (\<Sum>z\<leftarrow>?zs. cell v z s * ?W z t)" if "t \<in> set ?ts" for t s
    using that by (simp add: sum_list_const_mult)
  have "(\<Sum>t\<leftarrow>?ts. \<Sum>s\<leftarrow>?ss. ?c t s) = (\<Sum>t\<leftarrow>?ts. \<Sum>s\<leftarrow>?ss. \<Sum>z\<leftarrow>?zs. cell v z s * ?W z t)"
    by (rule arg_cong[where f = sum_list], rule map_cong[OF refl],
        rule arg_cong[where f = sum_list], rule map_cong[OF refl], rule cellw)
  also have "\<dots> = (\<Sum>t\<leftarrow>?ts. \<Sum>z\<leftarrow>?zs. \<Sum>s\<leftarrow>?ss. cell v z s * ?W z t)"
    by (rule arg_cong[where f = sum_list], rule map_cong[OF refl], rule sum_list_swap)
  also have "\<dots> = (\<Sum>z\<leftarrow>?zs. \<Sum>t\<leftarrow>?ts. \<Sum>s\<leftarrow>?ss. cell v z s * ?W z t)"
    by (rule sum_list_swap)
  also have "\<dots> = (\<Sum>z\<leftarrow>?zs. \<Sum>s\<leftarrow>?ss. \<Sum>t\<leftarrow>?ts. cell v z s * ?W z t)"
    by (rule arg_cong[where f = sum_list], rule map_cong[OF refl], rule sum_list_swap)
  also have "\<dots> = (\<Sum>z\<leftarrow>?zs. \<Sum>s\<leftarrow>?ss. cell v z s)"
  proof (rule arg_cong[where f = sum_list], rule map_cong[OF refl],
      rule arg_cong[where f = sum_list], rule map_cong[OF refl])
    fix z s assume z: "z \<in> set ?zs"
    have "(\<Sum>t\<leftarrow>?ts. cell v z s * ?W z t) = cell v z s * (\<Sum>t\<leftarrow>?ts. ?W z t)"
      by (rule sum_list_const_mult)
    also have "\<dots> = cell v z s" by (simp only: weights[OF z] mult_1_right)
    finally show "(\<Sum>t\<leftarrow>?ts. cell v z s * ?W z t) = cell v z s" .
  qed
  finally have "dvec_sum ?w = dvec_sum v"
    by (simp add: dvec_sum_def)
  with a show ?thesis by simp
qed

text \<open>
  The scenario of the specification: one zone \<open>E1\<close> with the value 100, translated
  with the weights 0.3 and 0.7, gives 30 and 70.
\<close>

theorem translate_weighted_conserves_total_witness:
  "example_translation (zs_name (zoning vec_100)) (zs_name zoning_split) =
     Some [(''E1'', ''E1a'', 3 / 10), (''E1'', ''E1b'', 7 / 10)]
   \<and> map_sum id (\<lambda>w. (cell w ''E1a'' [(''p'', 1)], cell w ''E1b'' [(''p'', 1)]))
       (translate_zoning example_translation vec_100 zoning_split Weighted) = Inr (30, 70)
   \<and> map_sum id dvec_sum (translate_zoning example_translation vec_100 zoning_split Weighted) =
       Inr (dvec_sum vec_100)
   \<and> dvec_sum vec_100 = 100"
proof -
  let ?table = "[(''E1'', ''E1a'', 3 / 10), (''E1'', ''E1b'', 7 / 10 :: rat)]"
  have h1: "example_translation (zs_name (zoning vec_100)) (zs_name zoning_split) = Some ?table"
    by (simp add: dvec_defs)
  have h2: "list_all (\<lambda>e. fst (snd e) \<in> set (zone_ids zoning_split)) ?table"
    by (simp add: dvec_defs)
  have h3: "distinct (zone_ids zoning_split)" by (simp add: dvec_defs)
  have h4: "list_all (\<lambda>z. (\<Sum>e\<leftarrow>filter (\<lambda>e. fst e = z) ?table. snd (snd e)) = 1)
                (zone_ids (zoning vec_100))"
    by (simp add: dvec_defs)
  from translate_weighted_conserves_total[where translation = example_translation
      and v = vec_100 and target = zoning_split and table = ?table, OF h1 h2 h3 h4]
  obtain w where
    w: "translate_zoning example_translation vec_100 zoning_split Weighted = Inr w"
       "dvec_sum w = dvec_sum vec_100" by blast
  then have s: "map_sum id dvec_sum
      (translate_zoning example_translation vec_100 zoning_split Weighted) =
       Inr (dvec_sum vec_100)" by simp
  have c: "map_sum id (\<lambda>w. (cell w ''E1a'' [(''p'', 1)], cell w ''E1b'' [(''p'', 1)]))
       (translate_zoning example_translation vec_100 zoning_split Weighted) = Inr (30, 70)"
    by (simp add: dvec_defs)
  have t: "dvec_sum vec_100 = 100" by (simp add: dvec_defs)
  from h1 c s t show ?thesis by (intro conjI)
qed

subsection \<open>Division\<close>

lemma filter_fst_unique:
  "distinct (map fst s) \<Longrightarrow> y \<in> set s \<Longrightarrow> filter (\<lambda>cv. fst cv = fst y) s = [y]"
proof (induction s)
  case Nil
  then show ?case by simp
next
  case (Cons x s)
  show ?case
  proof (cases "x = y")
    case True
    with Cons.prems have "fst y \<notin> fst ` set s" by simp
    then have "filter (\<lambda>cv. fst cv = fst y) s = []"
      by (auto simp: filter_empty_conv image_iff)
    with True show ?thesis by simp
  next
    case False
    with Cons.prems have "y \<in> set s" "fst x \<noteq> fst y" by force+
    with Cons show ?thesis by simp
  qed
qed

lemma project_part:
  "distinct (map fst s) \<Longrightarrow> set ys \<subseteq> set s \<Longrightarrow> project s (map fst ys) = ys"
  by (induction ys) (simp_all add: project_def filter_fst_unique)

lemma project_self:
  "valid_segmentation seg \<Longrightarrow> s \<in> set (segments seg) \<Longrightarrow> project s (seg_columns seg) = s"
proof -
  assume v: "valid_segmentation seg" and s: "s \<in> set (segments seg)"
  then have m: "map fst s = seg_columns seg" and d: "distinct (seg_columns seg)"
    by (auto simp: valid_segmentation_def list_all_iff)
  from project_part[of s s] m d show ?thesis by simp
qed

text \<open>
  C6. For DemandVectors \<open>a\<close> and \<open>b\<close> that are compatible for division (zonings of the
  same name, and one segmentation aggregates to the other), the division raises no
  error, and at every cell where the numerator and the denominator (the coarser
  operand broadcast) both hold 0 the quotient holds \<open>Finite 0\<close>, which is neither an
  error nor the flagged value; in particular so for two vectors of the same valid
  segmentation, at each of its segments.
\<close>

theorem divide_zero_by_zero:
  assumes zon: "zs_name (zoning a) = zs_name (zoning b)"
    and seg: "can_aggregate_to (segmentation a) (segmentation b) \<or>
              can_aggregate_to (segmentation b) (segmentation a)"
  shows "\<exists>q. divide_dvector a b = Inr q
           \<and> (can_aggregate_to (segmentation a) (segmentation b) \<longrightarrow>
                (\<forall>z s. cell a z s = 0 \<and> broadcast b z s = 0 \<longrightarrow> cell q z s = Finite 0))
           \<and> (\<not> can_aggregate_to (segmentation a) (segmentation b) \<longrightarrow>
                (\<forall>z s. broadcast a z s = 0 \<and> cell b z s = 0 \<longrightarrow> cell q z s = Finite 0))
           \<and> (segmentation b = segmentation a \<and> valid_segmentation (segmentation a) \<longrightarrow>
                (\<forall>z. \<forall>s \<in> set (segments (segmentation a)).
                   cell a z s = 0 \<and> cell b z s = 0 \<longrightarrow> cell q z s = Finite 0))"
proof (cases "can_aggregate_to (segmentation a) (segmentation b)")
  case True
  let ?q = "\<lparr>zoning = zoning a, segmentation = segmentation a,
             cell = (\<lambda>z s. cell_div (cell a z s) (broadcast b z s))\<rparr>"
  have d: "divide_dvector a b = Inr ?q" using zon True by (simp add: divide_dvector_def)
  have same: "cell ?q z s = Finite 0"
    if "segmentation b = segmentation a" "valid_segmentation (segmentation a)"
      "s \<in> set (segments (segmentation a))" "cell a z s = 0" "cell b z s = 0" for z s
    using that by (simp add: broadcast_def project_self cell_div_def)
  show ?thesis
    by (rule exI[of _ ?q]) (use d True same in \<open>simp add: cell_div_def\<close>)
next
  case False
  let ?q = "\<lparr>zoning = zoning a, segmentation = segmentation b,
             cell = (\<lambda>z s. cell_div (broadcast a z s) (cell b z s))\<rparr>"
  from False seg have o: "can_aggregate_to (segmentation b) (segmentation a)" by simp
  have d: "divide_dvector a b = Inr ?q" using zon False o by (simp add: divide_dvector_def)
  have ne: "segmentation b \<noteq> segmentation a" using False o by auto
  show ?thesis
    by (rule exI[of _ ?q]) (use d False ne in \<open>simp add: cell_div_def\<close>)
qed

text \<open>
  A vector with a zero cell divided by the all-zero vector of the coarser segmentation
  \<open>{p}\<close>.
\<close>

theorem divide_zero_by_zero_witness:
  "zs_name (zoning vec_0_7) = zs_name (zoning vec_0)
   \<and> can_aggregate_to (segmentation vec_0_7) (segmentation vec_0)
   \<and> cell vec_0_7 ''E1'' [(''p'', 1), (''m'', 1)] = 0
   \<and> broadcast vec_0 ''E1'' [(''p'', 1), (''m'', 1)] = 0
   \<and> map_sum id (\<lambda>q. cell q ''E1'' [(''p'', 1), (''m'', 1)]) (divide_dvector vec_0_7 vec_0) =
       Inr (Finite 0)"
proof -
  let ?s = "[(''p'', 1), (''m'', 1 :: int)]"
  have h1: "zs_name (zoning vec_0_7) = zs_name (zoning vec_0)" by (simp add: dvec_defs)
  have h2: "can_aggregate_to (segmentation vec_0_7) (segmentation vec_0)"
    by (simp add: dvec_defs)
  have z1: "cell vec_0_7 ''E1'' ?s = 0" by (simp add: dvec_defs)
  have z2: "broadcast vec_0 ''E1'' ?s = 0" by (simp add: dvec_defs)
  from divide_zero_by_zero[of vec_0_7 vec_0, OF h1 disjI1[OF h2]] obtain q where
    q: "divide_dvector vec_0_7 vec_0 = Inr q"
    and z: "can_aggregate_to (segmentation vec_0_7) (segmentation vec_0) \<longrightarrow>
        (\<forall>z s. cell vec_0_7 z s = 0 \<and> broadcast vec_0 z s = 0 \<longrightarrow> cell q z s = Finite 0)"
    by blast
  from z h2 z1 z2 have "cell q ''E1'' ?s = Finite 0" by blast
  with q have "map_sum id (\<lambda>q. cell q ''E1'' ?s) (divide_dvector vec_0_7 vec_0) = Inr (Finite 0)"
    by simp
  with h1 h2 z1 z2 show ?thesis by (intro conjI)
qed

end
